theory Spec2Isabelle
  imports Main
begin

section \<open>JavaScript values, errors and strings\<close>

text \<open>
  The values that travel through \<^verbatim>\<open>src/server.js\<close> are what \<^verbatim>\<open>JSON.parse\<close> builds, plus
  \<^verbatim>\<open>undefined\<close> (the value of a property that is not there). The program never computes
  with a number: it only echoes it or renders it into a text, so a number is carried by
  its canonical rendering (what \<^verbatim>\<open>ToString\<close> and \<^verbatim>\<open>JSON.stringify\<close> print for it).
  An object is the list of its own properties, in insertion order, with distinct keys.
\<close>

datatype js_value =
    VUndefined
  | VNull
  | VBool bool
  | VNum string
  | VStr string
  | VArr "js_value list"
  | VObj "(string \<times> js_value) list"

text \<open>What a \<^verbatim>\<open>throw\<close> carries: the three built-in errors the code can run into, and
  \<^verbatim>\<open>new Error(message)\<close>.\<close>

datatype js_error = SyntaxError | TypeError | ReferenceError | Error string

text \<open>
  Property access \<^verbatim>\<open>v.k\<close>. On \<^verbatim>\<open>undefined\<close> and \<^verbatim>\<open>null\<close> it throws a TypeError; on an object
  it finds the own property or yields \<^verbatim>\<open>undefined\<close>; on the other values it yields
  \<^verbatim>\<open>undefined\<close> for every property name the source uses (\<^verbatim>\<open>method\<close>, \<^verbatim>\<open>params\<close>, \<^verbatim>\<open>id\<close>,
  \<^verbatim>\<open>name\<close>, \<^verbatim>\<open>arguments\<close>, \<^verbatim>\<open>uri\<close>, \<^verbatim>\<open>query\<close>, \<^verbatim>\<open>path\<close>: none of them is on a prototype of a
  parsed value).
\<close>

fun js_get :: "js_value \<Rightarrow> string \<Rightarrow> js_error + js_value" where
  "js_get VUndefined k = Inl TypeError"
| "js_get VNull k = Inl TypeError"
| "js_get (VObj kvs) k = (case map_of kvs k of Some v \<Rightarrow> Inr v | None \<Rightarrow> Inr VUndefined)"
| "js_get v k = Inr VUndefined"

text \<open>
  \<^verbatim>\<open>ToString\<close>, as a template literal \<^verbatim>\<open>${v}\<close> applies it. A parsed object renders as
  \<^verbatim>\<open>[object Object]\<close> through \<^verbatim>\<open>Object.prototype.toString\<close>, unless it has an own property
  \<^verbatim>\<open>toString\<close>: that one is never callable, \<^verbatim>\<open>valueOf\<close> yields no primitive either, and the
  conversion throws a TypeError. An array joins its elements with a comma, \<^verbatim>\<open>undefined\<close>
  and \<^verbatim>\<open>null\<close> elements rendering as the empty string.
\<close>

fun js_join :: "string \<Rightarrow> string list \<Rightarrow> string" where
  "js_join sep [] = []"
| "js_join sep [x] = x"
| "js_join sep (x # y # ys) = x @ sep @ js_join sep (y # ys)"

fun unrenderable :: "js_value \<Rightarrow> bool" where
  "unrenderable (VObj kvs) = (''toString'' \<in> set (map fst kvs))"
| "unrenderable (VArr xs) = (\<exists>x \<in> set xs. unrenderable x)"
| "unrenderable v = False"

fun render :: "js_value \<Rightarrow> string" where
  "render VUndefined = ''undefined''"
| "render VNull = ''null''"
| "render (VBool b) = (if b then ''true'' else ''false'')"
| "render (VNum n) = n"
| "render (VStr s) = s"
| "render (VArr xs) =
     js_join '','' (map (\<lambda>x. if x = VUndefined \<or> x = VNull then [] else render x) xs)"
| "render (VObj kvs) = ''[object Object]''"

definition ToString :: "js_value \<Rightarrow> js_error + string" where
  "ToString v = (if unrenderable v then Inl TypeError else Inr (render v))"

text \<open>\<^verbatim>\<open>s.split(sep)\<close> for a one-character separator: every occurrence of the separator
  cuts, and the result always has at least one element.\<close>

fun js_split :: "char \<Rightarrow> string \<Rightarrow> string list" where
  "js_split sep [] = [[]]"
| "js_split sep (c # cs) =
     (if c = sep then [] # js_split sep cs
      else (case js_split sep cs of
              [] \<Rightarrow> [[c]]
            | w # ws \<Rightarrow> (c # w) # ws))"

text \<open>Array destructuring \<^verbatim>\<open>[a, b] = xs\<close> reads \<^verbatim>\<open>xs[0]\<close>, \<^verbatim>\<open>xs[1]\<close>; a position past the end
  gives \<^verbatim>\<open>undefined\<close>, which is \<open>None\<close> here.\<close>

definition element :: "'a list \<Rightarrow> nat \<Rightarrow> 'a option" where
  "element xs i = (if i < length xs then Some (xs ! i) else None)"

text \<open>A string that may be \<^verbatim>\<open>undefined\<close>, inside a template literal.\<close>

fun template :: "string option \<Rightarrow> string" where
  "template None = ''undefined''"
| "template (Some s) = s"

section \<open>The registry \<^verbatim>\<open>mcpProcesses\<close>\<close>

text \<open>
  \<^verbatim>\<open>mcpProcesses\<close> is a \<^verbatim>\<open>Map\<close> from a backend's name to \<^verbatim>\<open>{process, url, status}\<close>. A \<^verbatim>\<open>Map\<close>
  iterates in insertion order, so it is an association list. \<^verbatim>\<open>set\<close> on a present key
  replaces the value where it stands, on a new key it appends; \<^verbatim>\<open>delete\<close> removes the key.
  The child process is known by its handle only.
\<close>

type_synonym child_process = nat

record backend =
  process :: child_process
  url :: string
  status :: string

type_synonym registry = "(string \<times> backend) list"

definition map_has :: "string \<Rightarrow> registry \<Rightarrow> bool" where
  "map_has k m = (k \<in> set (map fst m))"

fun map_set :: "string \<Rightarrow> backend \<Rightarrow> registry \<Rightarrow> registry" where
  "map_set k v [] = [(k, v)]"
| "map_set k v ((k', v') # m) = (if k' = k then (k, v) # m else (k', v') # map_set k v m)"

definition map_delete :: "string \<Rightarrow> registry \<Rightarrow> registry" where
  "map_delete k m = filter (\<lambda>(k', v). k' \<noteq> k) m"

section \<open>Identifiers and their scope\<close>

text \<open>
  Reading an identifier throws a ReferenceError when no declaration of it is in scope,
  and also when the declaration is a \<^verbatim>\<open>let\<close> or \<^verbatim>\<open>const\<close> of the enclosing block that has
  not been initialised yet: such a declaration shadows every outer one from the start of
  its block, and stays unreadable until its own initialiser has been evaluated.
\<close>

datatype 'a binding = Unbound | Uninitialised | Bound 'a

fun read_binding :: "'a binding \<Rightarrow> js_error + 'a" where
  "read_binding Unbound = Inl ReferenceError"
| "read_binding Uninitialised = Inl ReferenceError"
| "read_binding (Bound v) = Inr v"

section \<open>The supervisor: \<^verbatim>\<open>initializeMCPServers\<close>\<close>

datatype log_line = Info string | Failure string js_error

record supervisor =
  procs :: registry
  console :: "log_line list"

definition REPOSITORIES :: "(string \<times> string) list" where
  "REPOSITORIES =
     [(''context7'', ''https://gitmcp.io/upstash/context7''),
      (''n8n-mcp'', ''https://gitmcp.io/nicknerov/n8n-mcp''),
      (''n8n-workflows'', ''https://gitmcp.io/Zie619/n8n-workflows'')]"

text \<open>\<^verbatim>\<open>spawn(command, args, options)\<close> of \<^verbatim>\<open>child_process\<close> belongs to the platform: it is a
  parameter, which either throws or returns the child's handle.\<close>

type_synonym spawn_fn = "string \<Rightarrow> string list \<Rightarrow> js_error + child_process"

text \<open>
  The body of the \<^verbatim>\<open>try\<close> block of one iteration (lines 28 to 52). The block declares
  \<^verbatim>\<open>const process = spawn('npx', ['mcp-remote', url], {..., env: {...process.env, ...}})\<close>.
  The arguments of \<^verbatim>\<open>spawn\<close> are evaluated before the call, and \<^verbatim>\<open>process.env\<close> among them
  reads the block's own \<^verbatim>\<open>process\<close>, which is not initialised at that point. Only past
  that read come the call of \<^verbatim>\<open>spawn\<close>, the three listeners and
  \<^verbatim>\<open>mcpProcesses.set(name, {process, url, status: 'running'})\<close>.
  The result is the error thrown, if any, and the state reached.
\<close>

definition start_backend ::
  "spawn_fn \<Rightarrow> string \<Rightarrow> string \<Rightarrow> supervisor \<Rightarrow> js_error option \<times> supervisor" where
  "start_backend spawn name repo_url s =
     (let s1 = s\<lparr>console := console s @ [Info (''Starting MCP server for '' @ name @ ''...'')]\<rparr>;
          process_in_block = (Uninitialised :: child_process binding)
      in case read_binding process_in_block of
           Inl e \<Rightarrow> (Some e, s1)
         | Inr outer \<Rightarrow>
             (case spawn ''npx'' [''mcp-remote'', repo_url] of
                Inl e \<Rightarrow> (Some e, s1)
              | Inr child \<Rightarrow>
                  (None, s1\<lparr>procs := map_set name
                                \<lparr>process = child, url = repo_url, status = ''running''\<rparr> (procs s1)\<rparr>)))"

text \<open>The \<^verbatim>\<open>for\<close> loop over \<^verbatim>\<open>Object.entries(REPOSITORIES)\<close>: the \<^verbatim>\<open>catch\<close> of an iteration
  logs the error and the loop goes on.\<close>

fun start_each :: "spawn_fn \<Rightarrow> (string \<times> string) list \<Rightarrow> supervisor \<Rightarrow> supervisor" where
  "start_each spawn [] s = s"
| "start_each spawn ((name, repo_url) # rest) s =
     (case start_backend spawn name repo_url s of
        (None, s') \<Rightarrow> start_each spawn rest s'
      | (Some e, s') \<Rightarrow>
          start_each spawn rest
            (s'\<lparr>console := console s' @ [Failure (''Failed to start MCP server for '' @ name @ '':'') e]\<rparr>))"

definition initializeMCPServers :: "spawn_fn \<Rightarrow> supervisor \<Rightarrow> supervisor" where
  "initializeMCPServers spawn s =
     start_each spawn REPOSITORIES (s\<lparr>console := console s @ [Info ''Initializing MCP servers...'']\<rparr>)"

text \<open>
  The registry has two write sites in the whole file: \<^verbatim>\<open>mcpProcesses.set\<close> at line 48, always
  with \<^verbatim>\<open>status: 'running'\<close>, and \<^verbatim>\<open>mcpProcesses.delete(name)\<close> in the exit listener at
  line 45. The states these two can build from the empty \<^verbatim>\<open>Map\<close>, in any order and for any
  names, contain every state the program reaches.
\<close>

inductive reachable :: "registry \<Rightarrow> bool" where
  initial: "reachable []"
| registered: "reachable m \<Longrightarrow>
     reachable (map_set name \<lparr>process = child, url = u, status = ''running''\<rparr> m)"
| exited: "reachable m \<Longrightarrow> reachable (map_delete name m)"

section \<open>The capability aggregator\<close>

definition search_tool :: "string \<Rightarrow> js_value" where
  "search_tool repoName =
     VObj [(''name'', VStr (repoName @ ''_search'')),
           (''description'', VStr (''Search '' @ repoName @ '' repository'')),
           (''inputSchema'', VObj
              [(''type'', VStr ''object''),
               (''properties'', VObj
                  [(''query'', VObj [(''type'', VStr ''string''),
                                     (''description'', VStr ''Search query'')]),
                   (''limit'', VObj [(''type'', VStr ''number''), (''default'', VNum ''10'')])]),
               (''required'', VArr [VStr ''query''])])]"

definition list_tool :: "string \<Rightarrow> js_value" where
  "list_tool repoName =
     VObj [(''name'', VStr (repoName @ ''_list'')),
           (''description'', VStr (''List files in '' @ repoName @ '' repository'')),
           (''inputSchema'', VObj
              [(''type'', VStr ''object''),
               (''properties'', VObj
                  [(''path'', VObj [(''type'', VStr ''string''), (''default'', VStr ''/'')])])])]"

definition resource_of :: "string \<Rightarrow> js_value" where
  "resource_of repoName =
     VObj [(''uri'', VStr (''mcp://'' @ repoName @ ''/'')),
           (''name'', VStr (repoName @ '' Repository'')),
           (''description'', VStr (''Access to '' @ repoName @ '' repository files'')),
           (''mimeType'', VStr ''application/json'')]"

text \<open>One turn of the loop of \<^verbatim>\<open>getAllTools\<close>, and of \<^verbatim>\<open>getAllResources\<close>: \<^verbatim>\<open>push\<close> appends.\<close>

fun push_tools :: "js_value list \<Rightarrow> string \<times> backend \<Rightarrow> js_value list" where
  "push_tools tools (repoName, repoData) =
     (if status repoData = ''running''
      then (tools @ [search_tool repoName]) @ [list_tool repoName]
      else tools)"

fun push_resource :: "js_value list \<Rightarrow> string \<times> backend \<Rightarrow> js_value list" where
  "push_resource resources (repoName, repoData) =
     (if status repoData = ''running'' then resources @ [resource_of repoName] else resources)"

text \<open>The methods of \<^verbatim>\<open>MCPHandler\<close> read the module's registry: each takes it and returns
  it with its result. The fields \<^verbatim>\<open>this.tools\<close> and \<^verbatim>\<open>this.resources\<close> of the handler are
  set in the constructor and never used again.\<close>

definition getAllTools :: "registry \<Rightarrow> js_value list \<times> registry" where
  "getAllTools m = (foldl push_tools [] m, m)"

definition getAllResources :: "registry \<Rightarrow> js_value list \<times> registry" where
  "getAllResources m = (foldl push_resource [] m, m)"

section \<open>The protocol router\<close>

definition dquote :: char where
  "dquote = CHR 0x22"

text \<open>\<^verbatim>\<open>const [repoName, action] = name.split('_')\<close>, line 157.\<close>

definition tool_target :: "string \<Rightarrow> string option \<times> string option" where
  "tool_target name = (let parts = js_split CHR ''_'' name in (element parts 0, element parts 1))"

text \<open>\<^verbatim>\<open>mcpProcesses.has(repoName)\<close>: the keys are strings, so \<^verbatim>\<open>undefined\<close> is never one.\<close>

fun has_repo :: "string option \<Rightarrow> registry \<Rightarrow> bool" where
  "has_repo None m = False"
| "has_repo (Some k) m = map_has k m"

definition search_result :: "string option \<Rightarrow> string \<Rightarrow> js_value" where
  "search_result repoName query =
     VObj [(''results'', VArr
        [VObj [(''path'', VStr (''/'' @ template repoName @ ''/example.md'')),
               (''content'', VStr (''Search results for '' @ [dquote] @ query @ [dquote]
                                    @ '' in '' @ template repoName)),
               (''score'', VNum ''0.95'')]])]"

definition list_result :: "string \<Rightarrow> js_value" where
  "list_result path =
     VObj [(''files'', VArr
        [VObj [(''name'', VStr ''README.md''), (''type'', VStr ''file''),
               (''path'', VStr (path @ ''/README.md''))],
         VObj [(''name'', VStr ''docs''), (''type'', VStr ''directory''),
               (''path'', VStr (path @ ''/docs/''))]])]"

text \<open>\<^verbatim>\<open>args.query\<close> inside a template literal: the property read, then \<^verbatim>\<open>ToString\<close>.\<close>

definition rendered_property :: "js_value \<Rightarrow> string \<Rightarrow> js_error + string" where
  "rendered_property args k =
     (case js_get args k of Inl e \<Rightarrow> Inl e | Inr v \<Rightarrow> ToString v)"

text \<open>\<^verbatim>\<open>callTool(name, args)\<close>. \<^verbatim>\<open>name.split\<close> is a function on a string only; on any other
  value the call throws a TypeError.\<close>

definition callTool ::
  "js_value \<Rightarrow> js_value \<Rightarrow> registry \<Rightarrow> (js_error + js_value) \<times> registry" where
  "callTool name args m =
     (case name of
        VStr s \<Rightarrow>
          (case tool_target s of (repoName, action) \<Rightarrow>
             if \<not> has_repo repoName m
             then (Inl (Error (''Repository '' @ template repoName @ '' not available'')), m)
             else if action = Some ''search'' then
               (case rendered_property args ''query'' of
                  Inl e \<Rightarrow> (Inl e, m)
                | Inr query \<Rightarrow> (Inr (search_result repoName query), m))
             else if action = Some ''list'' then
               (case rendered_property args ''path'' of
                  Inl e \<Rightarrow> (Inl e, m)
                | Inr path \<Rightarrow> (Inr (list_result path), m))
             else (Inl (Error (''Unknown action: '' @ template action)), m))
      | _ \<Rightarrow> (Inl TypeError, m))"

text \<open>\<^verbatim>\<open>const [, , repoName, ...pathParts] = uri.split('/')\<close>, then
  \<^verbatim>\<open>pathParts.join('/')\<close>, lines 191 and 192.\<close>

definition resource_target :: "string \<Rightarrow> string option \<times> string" where
  "resource_target uri =
     (let parts = js_split CHR ''/'' uri in (element parts 2, js_join ''/'' (drop 3 parts)))"

definition resource_text :: "string \<Rightarrow> string" where
  "resource_text uri =
     (case resource_target uri of (repoName, path) \<Rightarrow>
        ''Content of '' @ path @ '' from '' @ template repoName @ '' repository'')"

definition readResource :: "js_value \<Rightarrow> registry \<Rightarrow> (js_error + js_value) \<times> registry" where
  "readResource uri m =
     (case uri of
        VStr s \<Rightarrow>
          (Inr (VObj [(''contents'', VArr
             [VObj [(''uri'', VStr s), (''mimeType'', VStr ''text/plain''),
                    (''text'', VStr (resource_text s))]])]), m)
      | _ \<Rightarrow> (Inl TypeError, m))"

definition initialize_result :: js_value where
  "initialize_result =
     VObj [(''protocolVersion'', VStr ''2024-11-05''),
           (''capabilities'', VObj [(''tools'', VObj []), (''resources'', VObj [])]),
           (''serverInfo'', VObj [(''name'', VStr ''unified-mcp-server''),
                                  (''version'', VStr ''1.0.0'')])]"

text \<open>\<^verbatim>\<open>handleRequest(method, params)\<close>: the \<^verbatim>\<open>switch\<close> compares with \<^verbatim>\<open>===\<close>, so only the
  string itself matches a case.\<close>

definition handleRequest ::
  "js_value \<Rightarrow> js_value \<Rightarrow> registry \<Rightarrow> (js_error + js_value) \<times> registry" where
  "handleRequest method params m =
     (if method = VStr ''initialize'' then (Inr initialize_result, m)
      else if method = VStr ''tools/list'' then
        (case getAllTools m of (tools, m') \<Rightarrow> (Inr (VObj [(''tools'', VArr tools)]), m'))
      else if method = VStr ''tools/call'' then
        (case js_get params ''name'' of
           Inl e \<Rightarrow> (Inl e, m)
         | Inr name \<Rightarrow>
             (case js_get params ''arguments'' of
                Inl e \<Rightarrow> (Inl e, m)
              | Inr args \<Rightarrow> callTool name args m))
      else if method = VStr ''resources/list'' then
        (case getAllResources m of
           (resources, m') \<Rightarrow> (Inr (VObj [(''resources'', VArr resources)]), m'))
      else if method = VStr ''resources/read'' then
        (case js_get params ''uri'' of
           Inl e \<Rightarrow> (Inl e, m)
         | Inr uri \<Rightarrow> readResource uri m)
      else
        (case ToString method of
           Inl e \<Rightarrow> (Inl e, m)
         | Inr s \<Rightarrow> (Inl (Error (''Unknown method: '' @ s)), m)))"

section \<open>The transports\<close>

text \<open>\<^verbatim>\<open>GET /health\<close>, lines 209 to 221; the clock's reading is a parameter.\<close>

definition health_processes :: "registry \<Rightarrow> js_value list" where
  "health_processes m =
     map (\<lambda>(name, data). VObj [(''name'', VStr name), (''status'', VStr (status data)),
                                (''url'', VStr (url data))]) m"

definition health :: "string \<Rightarrow> registry \<Rightarrow> js_value" where
  "health now m =
     VObj [(''status'', VStr ''healthy''), (''timestamp'', VStr now),
           (''repositories'', VArr (map (\<lambda>(name, data). VStr name) m)),
           (''processes'', VArr (health_processes m))]"

text \<open>
  \<^verbatim>\<open>POST /mcp/tools/:toolName\<close>, lines 232 to 239: the route calls
  \<^verbatim>\<open>callTool(req.params.toolName, req.body.arguments || {})\<close>, so a falsy \<^verbatim>\<open>arguments\<close> is
  replaced by the empty object. It answers 200 with \<^verbatim>\<open>{result}\<close> for a result and 500 with
  the error's message for an error; the model keeps the result or the error.
\<close>

fun truthy :: "js_value \<Rightarrow> bool" where
  "truthy VUndefined = False"
| "truthy VNull = False"
| "truthy (VBool b) = b"
| "truthy (VNum n) = (n \<noteq> ''0'' \<and> n \<noteq> ''NaN'')"
| "truthy (VStr s) = (s \<noteq> [])"
| "truthy v = True"

definition post_tool ::
  "string \<Rightarrow> js_value \<Rightarrow> registry \<Rightarrow> (js_error + js_value) \<times> registry" where
  "post_tool toolName body m =
     (case js_get body ''arguments'' of
        Inl e \<Rightarrow> (Inl e, m)
      | Inr a \<Rightarrow> callTool (VStr toolName) (if truthy a then a else VObj []) m)"

text \<open>
  The message listener of a connection, lines 267 to 287. What \<^verbatim>\<open>ws.send\<close> is given is
  \<^verbatim>\<open>JSON.stringify\<close> of an object literal; an envelope sent is the value that text denotes.
  \<^verbatim>\<open>JSON.stringify\<close> leaves out a property whose value is \<^verbatim>\<open>undefined\<close>, writes \<^verbatim>\<open>null\<close> for
  an \<^verbatim>\<open>undefined\<close> element of an array and for a number that is not finite, and goes
  through arrays and objects. The listener's input is what
  \<^verbatim>\<open>JSON.parse(message.toString())\<close> gives: the SyntaxError it throws, or the value.
\<close>

definition non_finite :: "string \<Rightarrow> bool" where
  "non_finite n = (n = ''Infinity'' \<or> n = ''-Infinity'' \<or> n = ''NaN'')"

fun json_value :: "js_value \<Rightarrow> js_value" where
  "json_value (VNum n) = (if non_finite n then VNull else VNum n)"
| "json_value (VArr xs) =
     VArr (map (\<lambda>x. if x = VUndefined then VNull else json_value x) xs)"
| "json_value (VObj props) =
     VObj (map (\<lambda>p. (fst p, json_value (snd p)))
             (filter (\<lambda>p. snd p \<noteq> VUndefined) props))"
| "json_value v = v"

definition stringified :: "(string \<times> js_value) list \<Rightarrow> js_value" where
  "stringified props = json_value (VObj props)"

record delivery =
  sent :: "js_value list"
  rejected :: "js_error option"

text \<open>The \<^verbatim>\<open>try\<close> block: the error it throws, or the envelope it sends.\<close>

definition try_block ::
  "js_error + js_value \<Rightarrow> registry \<Rightarrow> (js_error + js_value) \<times> registry" where
  "try_block parsed m =
     (case parsed of
        Inl e \<Rightarrow> (Inl e, m)
      | Inr request \<Rightarrow>
          (case js_get request ''method'' of
             Inl e \<Rightarrow> (Inl e, m)
           | Inr method \<Rightarrow>
               (case js_get request ''params'' of
                  Inl e \<Rightarrow> (Inl e, m)
                | Inr params \<Rightarrow>
                    (case handleRequest method params m of
                       (Inl e, m') \<Rightarrow> (Inl e, m')
                     | (Inr response, m') \<Rightarrow>
                         (case js_get request ''id'' of
                            Inl e \<Rightarrow> (Inl e, m')
                          | Inr ident \<Rightarrow>
                              (Inr (stringified [(''jsonrpc'', VStr ''2.0''), (''id'', ident),
                                                 (''result'', response)]), m'))))))"

text \<open>
  The \<^verbatim>\<open>catch\<close> block builds \<^verbatim>\<open>{jsonrpc: '2.0', id: request.id, error: {code: -32000,
  message: error.message}}\<close>. \<^verbatim>\<open>request\<close> is a \<^verbatim>\<open>const\<close> of the \<^verbatim>\<open>try\<close> block and ends with
  it; the listener, the module and the global object declare no other \<^verbatim>\<open>request\<close>.
\<close>

text \<open>\<^verbatim>\<open>error.message\<close>: the text given to \<^verbatim>\<open>new Error\<close>. The message of a built-in error is
  the engine's own wording, which is not modelled and stands empty here.\<close>

fun error_message :: "js_error \<Rightarrow> string" where
  "error_message (Error msg) = msg"
| "error_message e = []"

definition catch_block :: "js_error \<Rightarrow> js_error + js_value" where
  "catch_block error =
     (let request_in_catch = (Unbound :: js_value binding)
      in case read_binding request_in_catch of
           Inl e \<Rightarrow> Inl e
         | Inr request \<Rightarrow>
             (case js_get request ''id'' of
                Inl e \<Rightarrow> Inl e
              | Inr ident \<Rightarrow>
                  Inr (stringified
                         [(''jsonrpc'', VStr ''2.0''), (''id'', ident),
                          (''error'', VObj [(''code'', VNum ''-32000''),
                                            (''message'', VStr (error_message error))])])))"

text \<open>The listener is an \<^verbatim>\<open>async\<close> function: an error that leaves it rejects its promise,
  which nothing handles.\<close>

definition on_message :: "js_error + js_value \<Rightarrow> registry \<Rightarrow> delivery \<times> registry" where
  "on_message parsed m =
     (case try_block parsed m of
        (Inr envelope, m') \<Rightarrow> (\<lparr>sent = [envelope], rejected = None\<rparr>, m')
      | (Inl error, m') \<Rightarrow>
          (case catch_block error of
             Inr envelope \<Rightarrow> (\<lparr>sent = [envelope], rejected = None\<rparr>, m')
           | Inl e \<Rightarrow> (\<lparr>sent = [], rejected = Some e\<rparr>, m')))"

section \<open>Notions of the specification\<close>

text \<open>The running backends of a registry, by name and in iteration order: the entries
  that pass the test \<^verbatim>\<open>repoData.status === 'running'\<close>.\<close>

definition running :: "registry \<Rightarrow> string list" where
  "running m = map fst (filter (\<lambda>(name, data). status data = ''running'') m)"

definition all_running :: "registry \<Rightarrow> bool" where
  "all_running m = list_all (\<lambda>(name, data). status data = ''running'') m"

text \<open>Splitting on the first separator, in the specification's words: the text before
  the first separator, and the entire remainder after it.\<close>

definition split_first :: "char \<Rightarrow> string \<Rightarrow> string \<times> string" where
  "split_first sep s =
     (takeWhile (\<lambda>c. c \<noteq> sep) s, drop 1 (dropWhile (\<lambda>c. c \<noteq> sep) s))"

text \<open>The fixed scheme prefix of a resource address, and the parse of an address in the
  specification's words: strip the scheme prefix, split the remainder on the first path
  separator.\<close>

definition scheme :: string where
  "scheme = ''mcp://''"

definition strip_scheme :: "string \<Rightarrow> string" where
  "strip_scheme uri =
     (if take (length scheme) uri = scheme then drop (length scheme) uri else uri)"

definition uri_parts :: "string \<Rightarrow> string \<times> string" where
  "uri_parts uri = split_first CHR ''/'' (strip_scheme uri)"

text \<open>Reading a descriptor along a path of property names.\<close>

fun at_path :: "js_value \<Rightarrow> string list \<Rightarrow> js_error + js_value" where
  "at_path v [] = Inr v"
| "at_path v (k # ks) = (case js_get v k of Inl e \<Rightarrow> Inl e | Inr w \<Rightarrow> at_path w ks)"

section \<open>Splitting and joining\<close>

lemma js_split_not_Nil: "js_split sep s \<noteq> []"
  by (induction s) (auto split: list.splits)

lemma js_split_no_sep: "sep \<notin> set s \<Longrightarrow> js_split sep s = [s]"
  by (induction s) auto

lemma js_split_at_sep: "sep \<notin> set a \<Longrightarrow> js_split sep (a @ sep # b) = a # js_split sep b"
  by (induction a) auto

lemma hd_js_split: "hd (js_split sep s) = takeWhile (\<lambda>c. c \<noteq> sep) s"
  by (induction s) (auto simp: js_split_not_Nil split: list.splits)

lemma cut_at_sep:
  assumes "sep \<in> set s"
  shows "s = takeWhile (\<lambda>c. c \<noteq> sep) s @ sep # drop 1 (dropWhile (\<lambda>c. c \<noteq> sep) s)"
proof -
  from assms have "dropWhile (\<lambda>c. c \<noteq> sep) s \<noteq> []" by (simp add: dropWhile_eq_Nil_conv)
  moreover have "hd (dropWhile (\<lambda>c. c \<noteq> sep) s) = sep"
    using hd_dropWhile [OF calculation] by simp
  ultimately have "dropWhile (\<lambda>c. c \<noteq> sep) s = sep # drop 1 (dropWhile (\<lambda>c. c \<noteq> sep) s)"
    by (cases "dropWhile (\<lambda>c. c \<noteq> sep) s") auto
  then show ?thesis
    using takeWhile_dropWhile_id [of "\<lambda>c. c \<noteq> sep" s] by simp
qed

lemma js_split_cut:
  assumes "sep \<in> set s"
  shows "js_split sep s =
    takeWhile (\<lambda>c. c \<noteq> sep) s # js_split sep (drop 1 (dropWhile (\<lambda>c. c \<noteq> sep) s))"
proof -
  have "sep \<notin> set (takeWhile (\<lambda>c. c \<noteq> sep) s)"
    by (auto dest: set_takeWhileD)
  from js_split_at_sep [OF this, of "drop 1 (dropWhile (\<lambda>c. c \<noteq> sep) s)"] cut_at_sep [OF assms]
  show ?thesis by simp
qed

lemma js_join_push: "js_join sep ((c # w) # ws) = c # js_join sep (w # ws)"
  by (cases ws) auto

lemma js_join_split: "js_join [sep] (js_split sep s) = s"
proof (induction s)
  case Nil
  then show ?case by simp
next
  case (Cons c cs)
  obtain w ws where parts: "js_split sep cs = w # ws"
    using js_split_not_Nil [of sep cs] by (cases "js_split sep cs") auto
  show ?case
  proof (cases "c = sep")
    case True
    with Cons parts show ?thesis by simp
  next
    case False
    with Cons parts show ?thesis by (simp add: js_join_push del: js_join.simps)
  qed
qed

section \<open>The aggregator's loops\<close>

lemma foldl_push_tools:
  "foldl push_tools acc m = acc @ concat (map (\<lambda>n. [search_tool n, list_tool n]) (running m))"
  by (induction m arbitrary: acc) (auto simp: running_def)

lemma foldl_push_resource:
  "foldl push_resource acc m = acc @ map resource_of (running m)"
  by (induction m arbitrary: acc) (auto simp: running_def)

lemma running_map_delete: "running (map_delete n m) = filter (\<lambda>k. k \<noteq> n) (running m)"
  by (induction m) (auto simp: running_def map_delete_def)


section \<open>The target of a tool call\<close>

lemma element_Cons_0: "element (x # xs) 0 = Some x"
  by (simp add: element_def)

lemma element_Cons_Suc: "element (x # xs) (Suc i) = element xs i"
  by (simp add: element_def)

lemma element_js_split_0: "element (js_split sep s) 0 = Some (takeWhile (\<lambda>c. c \<noteq> sep) s)"
proof -
  obtain w ws where parts: "js_split sep s = w # ws"
    using js_split_not_Nil [of sep s] by (cases "js_split sep s") auto
  with hd_js_split [of sep s] show ?thesis by (simp add: element_Cons_0)
qed

lemma tool_target_no_sep:
  assumes "CHR ''_'' \<notin> set name"
  shows "tool_target name = (Some name, None)"
  using js_split_no_sep [OF assms] by (simp add: tool_target_def element_def)

lemma tool_target_sep:
  assumes "CHR ''_'' \<in> set name"
  shows "tool_target name =
    (Some (takeWhile (\<lambda>c. c \<noteq> CHR ''_'') name),
     Some (takeWhile (\<lambda>c. c \<noteq> CHR ''_'') (drop 1 (dropWhile (\<lambda>c. c \<noteq> CHR ''_'') name))))"
proof -
  let ?rest = "drop 1 (dropWhile (\<lambda>c. c \<noteq> CHR ''_'') name)"
  have "js_split CHR ''_'' name = takeWhile (\<lambda>c. c \<noteq> CHR ''_'') name # js_split CHR ''_'' ?rest"
    by (rule js_split_cut [OF assms])
  then have "tool_target name =
      (Some (takeWhile (\<lambda>c. c \<noteq> CHR ''_'') name), element (js_split CHR ''_'' ?rest) 0)"
    by (simp only: tool_target_def Let_def element_Cons_0 One_nat_def element_Cons_Suc)
  then show ?thesis
    by (simp only: element_js_split_0)
qed

text \<open>
  C4, as the code has it. \<^verbatim>\<open>name.split('_')\<close> cuts at every separator and the destructuring
  keeps the first two pieces. The backend name is the text before the first separator
  (the whole name when there is none). The action is undefined when the name has no
  separator, and otherwise the text between the first separator and the second one, or
  the end of the name; what follows a second separator is dropped. So the action is the
  entire remainder after the first separator exactly when that remainder holds no further
  separator.
\<close>

theorem tool_target_parts:
  "fst (tool_target name) = Some (fst (split_first CHR ''_'' name)) \<and>
   snd (tool_target name) =
     (if CHR ''_'' \<in> set name
      then Some (fst (split_first CHR ''_'' (snd (split_first CHR ''_'' name))))
      else None) \<and>
   (CHR ''_'' \<in> set name \<and> CHR ''_'' \<notin> set (snd (split_first CHR ''_'' name)) \<longrightarrow>
      snd (tool_target name) = Some (snd (split_first CHR ''_'' name)))"
proof (cases "CHR ''_'' \<in> set name")
  case True
  then show ?thesis
    by (auto simp: tool_target_sep split_first_def takeWhile_eq_all_conv)
next
  case False
  then have whole: "takeWhile (\<lambda>c. c \<noteq> CHR ''_'') name = name"
    by (intro takeWhile_eq_all_conv [THEN iffD2]) auto
  from False show ?thesis
    by (simp add: tool_target_no_sep split_first_def whole)
qed

theorem tool_target_parts_witness:
  "CHR ''_'' \<in> set ''n8n-mcp_search'' \<and>
   CHR ''_'' \<notin> set (snd (split_first CHR ''_'' ''n8n-mcp_search'')) \<and>
   tool_target ''n8n-mcp_search'' = (Some ''n8n-mcp'', Some ''search'')"
  using tool_target_parts [of "''n8n-mcp_search''"]
  by (simp add: split_first_def prod_eq_iff)

text \<open>C4 as stated fails on a name with two separators: for \<^verbatim>\<open>a_b_c\<close> the action is \<^verbatim>\<open>b\<close>,
  while the remainder after the first separator is \<^verbatim>\<open>b_c\<close>.\<close>

theorem tool_target_remainder_counterexample:
  "snd (tool_target ''a_b_c'') = Some ''b'' \<and> snd (split_first CHR ''_'' ''a_b_c'') = ''b_c''"
  by (simp add: tool_target_def split_first_def element_def)


section \<open>Dispatch of a tool call\<close>

lemma all_running_running: "all_running m \<Longrightarrow> running m = map fst m"
  by (induction m) (auto simp: all_running_def running_def)

lemma snd_callTool: "snd (callTool name args m) = m"
  by (auto simp: callTool_def split: js_value.splits prod.splits sum.splits)

text \<open>The branches of \<^verbatim>\<open>callTool\<close> for a name whose pieces are \<open>repo\<close> and \<open>action\<close>: the
  registry is looked up first, then the action is dispatched, and the two known actions
  give their payload when the property they render can be read and converted.\<close>

lemma callTool_branches:
  assumes "tool_target name = (Some repo, action)"
  shows "(\<not> map_has repo m \<longrightarrow>
            callTool (VStr name) args m =
              (Inl (Error (''Repository '' @ repo @ '' not available'')), m)) \<and>
         (map_has repo m \<and> action = Some ''search'' \<and>
            rendered_property args ''query'' = Inr query \<longrightarrow>
            callTool (VStr name) args m = (Inr (search_result (Some repo) query), m)) \<and>
         (map_has repo m \<and> action = Some ''list'' \<and>
            rendered_property args ''path'' = Inr path \<longrightarrow>
            callTool (VStr name) args m = (Inr (list_result path), m)) \<and>
         (map_has repo m \<and> action \<noteq> Some ''search'' \<and> action \<noteq> Some ''list'' \<longrightarrow>
            callTool (VStr name) args m =
              (Inl (Error (''Unknown action: '' @ template action)), m))"
  using assms by (auto simp: callTool_def split: sum.splits)

lemma rendered_property_ok:
  assumes "args \<noteq> VUndefined" and "args \<noteq> VNull"
    and "js_get args k = Inr v" and "\<not> unrenderable v"
  shows "rendered_property args k = Inr (render v)"
  using assms by (simp add: rendered_property_def ToString_def)

lemma js_get_defined: "args \<noteq> VUndefined \<Longrightarrow> args \<noteq> VNull \<Longrightarrow> \<exists>v. js_get args k = Inr v"
  by (cases args) (auto split: option.splits)

text \<open>
  C5, evaluated. With backend \<^verbatim>\<open>alpha\<close> running, the channel request \<^verbatim>\<open>tools/call\<close> for
  \<^verbatim>\<open>alpha_list\<close> whose \<^verbatim>\<open>params\<close> carry no \<^verbatim>\<open>arguments\<close> passes the backend check and then
  throws a TypeError on \<^verbatim>\<open>args.path\<close>: the recognised action gives no result payload. The
  HTTP route, which puts the empty object in place of absent arguments, gives the list
  payload for the same tool name.
\<close>

theorem tools_call_without_arguments:
  "handleRequest (VStr ''tools/call'') (VObj [(''name'', VStr ''alpha_list'')])
     [(''alpha'', \<lparr>process = 101, url = ''http://x'', status = ''running''\<rparr>)] =
     (Inl TypeError,
      [(''alpha'', \<lparr>process = 101, url = ''http://x'', status = ''running''\<rparr>)]) \<and>
   callTool (VStr ''alpha_list'') VUndefined
     [(''alpha'', \<lparr>process = 101, url = ''http://x'', status = ''running''\<rparr>)] =
     (Inl TypeError,
      [(''alpha'', \<lparr>process = 101, url = ''http://x'', status = ''running''\<rparr>)]) \<and>
   post_tool ''alpha_list'' (VObj [])
     [(''alpha'', \<lparr>process = 101, url = ''http://x'', status = ''running''\<rparr>)] =
     (Inr (list_result ''undefined''),
      [(''alpha'', \<lparr>process = 101, url = ''http://x'', status = ''running''\<rparr>)])"
  by (simp add: handleRequest_def post_tool_def callTool_def tool_target_def element_def
      map_has_def rendered_property_def ToString_def)

section \<open>Capability listings\<close>

text \<open>
  C6. For every registry, \<^verbatim>\<open>getAllTools\<close> yields the search descriptor and then the list
  descriptor of each running backend, two per backend, and \<^verbatim>\<open>getAllResources\<close> yields one
  resource descriptor per running backend, both in the registry's iteration order. Each
  call computes its list from the registry it is given: after \<^verbatim>\<open>delete\<close> of a name the
  lists are those of the remaining running backends. The search descriptor requires
  \<^verbatim>\<open>query\<close>, a string, and offers \<^verbatim>\<open>limit\<close>, a number with default 10; the list descriptor
  offers \<^verbatim>\<open>path\<close>, a string with default \<^verbatim>\<open>/\<close>, and requires nothing. The resource
  descriptor of a backend carries the address \<^verbatim>\<open>mcp://<backend>/\<close>, a name and a description
  that quote the backend, and the type \<^verbatim>\<open>application/json\<close>.
\<close>

theorem aggregator_descriptors:
  "fst (getAllTools m) = concat (map (\<lambda>k. [search_tool k, list_tool k]) (running m)) \<and>
   length (fst (getAllTools m)) = 2 * length (running m) \<and>
   fst (getAllResources m) = map resource_of (running m) \<and>
   length (fst (getAllResources m)) = length (running m) \<and>
   fst (getAllTools (map_delete n m)) =
     concat (map (\<lambda>k. [search_tool k, list_tool k]) (filter (\<lambda>k. k \<noteq> n) (running m))) \<and>
   fst (getAllResources (map_delete n m)) = map resource_of (filter (\<lambda>k. k \<noteq> n) (running m)) \<and>
   at_path (search_tool k) [''name''] = Inr (VStr (k @ ''_search'')) \<and>
   at_path (search_tool k) [''inputSchema'', ''required''] = Inr (VArr [VStr ''query'']) \<and>
   at_path (search_tool k) [''inputSchema'', ''properties'', ''query'', ''type''] =
     Inr (VStr ''string'') \<and>
   at_path (search_tool k) [''inputSchema'', ''properties'', ''limit''] =
     Inr (VObj [(''type'', VStr ''number''), (''default'', VNum ''10'')]) \<and>
   at_path (list_tool k) [''name''] = Inr (VStr (k @ ''_list'')) \<and>
   at_path (list_tool k) [''inputSchema'', ''properties'', ''path''] =
     Inr (VObj [(''type'', VStr ''string''), (''default'', VStr ''/'')]) \<and>
   at_path (list_tool k) [''inputSchema'', ''required''] = Inr VUndefined \<and>
   at_path (resource_of k) [''uri''] = Inr (VStr (''mcp://'' @ k @ ''/'')) \<and>
   at_path (resource_of k) [''name''] = Inr (VStr (k @ '' Repository'')) \<and>
   at_path (resource_of k) [''description''] =
     Inr (VStr (''Access to '' @ k @ '' repository files'')) \<and>
   at_path (resource_of k) [''mimeType''] = Inr (VStr ''application/json'')"
proof -
  have tools: "fst (getAllTools r) = concat (map (\<lambda>k. [search_tool k, list_tool k]) (running r))"
    for r by (simp add: getAllTools_def foldl_push_tools)
  have resources: "fst (getAllResources r) = map resource_of (running r)"
    for r by (simp add: getAllResources_def foldl_push_resource)
  have count: "length (concat (map (\<lambda>k. [search_tool k, list_tool k]) ks)) = 2 * length ks"
    for ks by (induction ks) auto
  have search: "at_path (search_tool k) [''name''] = Inr (VStr (k @ ''_search'')) \<and>
      at_path (search_tool k) [''inputSchema'', ''required''] = Inr (VArr [VStr ''query'']) \<and>
      at_path (search_tool k) [''inputSchema'', ''properties'', ''query'', ''type''] =
        Inr (VStr ''string'') \<and>
      at_path (search_tool k) [''inputSchema'', ''properties'', ''limit''] =
        Inr (VObj [(''type'', VStr ''number''), (''default'', VNum ''10'')])"
    by (simp add: search_tool_def)
  have list: "at_path (list_tool k) [''name''] = Inr (VStr (k @ ''_list'')) \<and>
      at_path (list_tool k) [''inputSchema'', ''properties'', ''path''] =
        Inr (VObj [(''type'', VStr ''string''), (''default'', VStr ''/'')]) \<and>
      at_path (list_tool k) [''inputSchema'', ''required''] = Inr VUndefined"
    by (simp add: list_tool_def)
  have resource: "at_path (resource_of k) [''uri''] = Inr (VStr (''mcp://'' @ k @ ''/'')) \<and>
      at_path (resource_of k) [''name''] = Inr (VStr (k @ '' Repository'')) \<and>
      at_path (resource_of k) [''description''] =
        Inr (VStr (''Access to '' @ k @ '' repository files'')) \<and>
      at_path (resource_of k) [''mimeType''] = Inr (VStr ''application/json'')"
    by (simp add: resource_of_def)
  show ?thesis
    using search list resource
    by (simp only: tools resources count running_map_delete length_map)
qed

theorem aggregator_descriptors_witness:
  "map (\<lambda>t. at_path t [''name''])
     (fst (getAllTools [(''alpha'', \<lparr>process = 101, url = ''http://x'', status = ''running''\<rparr>),
                        (''beta'', \<lparr>process = 102, url = ''http://y'', status = ''running''\<rparr>)])) =
     [Inr (VStr ''alpha_search''), Inr (VStr ''alpha_list''),
      Inr (VStr ''beta_search''), Inr (VStr ''beta_list'')] \<and>
   map (\<lambda>t. at_path t [''name''])
     (fst (getAllTools (map_delete ''beta''
        [(''alpha'', \<lparr>process = 101, url = ''http://x'', status = ''running''\<rparr>),
         (''beta'', \<lparr>process = 102, url = ''http://y'', status = ''running''\<rparr>)]))) =
     [Inr (VStr ''alpha_search''), Inr (VStr ''alpha_list'')] \<and>
   map (\<lambda>t. at_path t [''uri''])
     (fst (getAllResources
        [(''alpha'', \<lparr>process = 101, url = ''http://x'', status = ''running''\<rparr>),
         (''beta'', \<lparr>process = 102, url = ''http://y'', status = ''running''\<rparr>)])) =
     [Inr (VStr ''mcp://alpha/''), Inr (VStr ''mcp://beta/'')] \<and>
   map (\<lambda>t. at_path t [''uri''])
     (fst (getAllResources (map_delete ''beta''
        [(''alpha'', \<lparr>process = 101, url = ''http://x'', status = ''running''\<rparr>),
         (''beta'', \<lparr>process = 102, url = ''http://y'', status = ''running''\<rparr>)]))) =
     [Inr (VStr ''mcp://alpha/'')]"
proof -
  let ?m = "[(''alpha'', \<lparr>process = 101, url = ''http://x'', status = ''running''\<rparr>),
             (''beta'', \<lparr>process = 102, url = ''http://y'', status = ''running''\<rparr>)]"
  let ?pair = "\<lambda>k. [search_tool k, list_tool k]"
  have r: "running ?m = [''alpha'', ''beta'']" by (simp add: running_def)
  have t: "fst (getAllTools ?m) = concat (map ?pair (running ?m))"
    and d: "fst (getAllTools (map_delete ''beta'' ?m)) =
      concat (map ?pair (filter (\<lambda>k. k \<noteq> ''beta'') (running ?m)))"
    and a: "fst (getAllResources ?m) = map resource_of (running ?m)"
    and e: "fst (getAllResources (map_delete ''beta'' ?m)) =
      map resource_of (filter (\<lambda>k. k \<noteq> ''beta'') (running ?m))"
    using aggregator_descriptors [of ?m "''beta''" "''alpha''"] by blast+
  show ?thesis
    by (simp only: t d a e r) (simp add: search_tool_def list_tool_def resource_of_def)
qed

text \<open>
  C8. Calling \<^verbatim>\<open>getAllTools\<close> twice in a row, the second time on the registry the first
  call leaves behind, gives the same list both times, element for element; so does the
  method \<^verbatim>\<open>tools/list\<close> of the router.
\<close>

theorem getAllTools_idempotent:
  "fst (getAllTools (snd (getAllTools m))) = fst (getAllTools m) \<and>
   fst (handleRequest (VStr ''tools/list'') params'
          (snd (handleRequest (VStr ''tools/list'') params m))) =
     fst (handleRequest (VStr ''tools/list'') params m)"
  by (simp add: getAllTools_def handleRequest_def)

theorem getAllTools_idempotent_witness:
  "fst (getAllTools (snd (getAllTools
      [(''alpha'', \<lparr>process = 101, url = ''http://x'', status = ''running''\<rparr>)]))) =
   [search_tool ''alpha'', list_tool ''alpha'']"
proof -
  have "fst (getAllTools [(''alpha'', \<lparr>process = 101, url = ''http://x'', status = ''running''\<rparr>)])
      = [search_tool ''alpha'', list_tool ''alpha'']"
    by (simp add: getAllTools_def)
  then show ?thesis
    using getAllTools_idempotent
      [of "[(''alpha'', \<lparr>process = 101, url = ''http://x'', status = ''running''\<rparr>)]"]
    by simp
qed

section \<open>The router only reads the registry\<close>

lemma snd_readResource: "snd (readResource uri m) = m"
  by (simp add: readResource_def split: js_value.splits)

lemma snd_getAllTools: "snd (getAllTools m) = m"
  by (simp add: getAllTools_def)

lemma snd_getAllResources: "snd (getAllResources m) = m"
  by (simp add: getAllResources_def)

lemma snd_handleRequest: "snd (handleRequest method params m) = m"
  by (simp add: handleRequest_def snd_callTool snd_readResource getAllTools_def
      getAllResources_def split: sum.splits)

text \<open>
  C9. For every method and every parameters value, \<^verbatim>\<open>handleRequest\<close> returns the registry
  it was given, whether it returns a result or throws; so does each operation it calls.
\<close>

theorem router_frame:
  "snd (handleRequest method params m) = m \<and>
   snd (getAllTools m) = m \<and>
   snd (getAllResources m) = m \<and>
   snd (callTool name args m) = m \<and>
   snd (readResource uri m) = m"
  by (simp only: snd_handleRequest snd_getAllTools snd_getAllResources snd_callTool
      snd_readResource)

theorem router_frame_witness:
  "handleRequest (VStr ''tools/call'') (VObj [(''name'', VStr ''gamma_search'')])
     [(''alpha'', \<lparr>process = 101, url = ''http://x'', status = ''running''\<rparr>)] =
   (Inl (Error ''Repository gamma not available''),
    [(''alpha'', \<lparr>process = 101, url = ''http://x'', status = ''running''\<rparr>)])"
proof -
  let ?m = "[(''alpha'', \<lparr>process = 101, url = ''http://x'', status = ''running''\<rparr>)]"
  have "fst (handleRequest (VStr ''tools/call'') (VObj [(''name'', VStr ''gamma_search'')]) ?m)
      = Inl (Error ''Repository gamma not available'')"
    by (simp add: handleRequest_def callTool_def tool_target_def element_def map_has_def)
  then show ?thesis
    using router_frame
      [of "VStr ''tools/call''" "VObj [(''name'', VStr ''gamma_search'')]" ?m VNull VNull VNull]
    by (simp add: prod_eq_iff)
qed


section \<open>Reading a resource\<close>

lemma js_join_tail_split:
  "js_join [sep] (drop 1 (js_split sep s)) = drop 1 (dropWhile (\<lambda>c. c \<noteq> sep) s)"
proof (cases "sep \<in> set s")
  case True
  show ?thesis
    by (subst js_split_cut [OF True]) (simp add: js_join_split)
next
  case False
  then have no_rest: "dropWhile (\<lambda>c. c \<noteq> sep) s = []"
    by (intro dropWhile_eq_Nil_conv [THEN iffD2]) auto
  show ?thesis
    by (simp add: js_split_no_sep [OF False] no_rest)
qed

lemma js_split_scheme:
  "js_split CHR ''/'' (scheme @ rest) = ''mcp:'' # [] # js_split CHR ''/'' rest"
proof -
  have "js_split CHR ''/'' (''mcp:'' @ CHR ''/'' # (CHR ''/'' # rest)) =
      ''mcp:'' # js_split CHR ''/'' (CHR ''/'' # rest)"
    by (rule js_split_at_sep) simp
  then show ?thesis by (simp add: scheme_def)
qed

lemma resource_target_pieces:
  "resource_target uri =
     (if CHR ''/'' \<in> set uri \<and> CHR ''/'' \<in> set (snd (split_first CHR ''/'' uri))
      then (Some (fst (split_first CHR ''/''
                    (snd (split_first CHR ''/'' (snd (split_first CHR ''/'' uri)))))),
            snd (split_first CHR ''/''
                    (snd (split_first CHR ''/'' (snd (split_first CHR ''/'' uri))))))
      else (None, []))"
proof (cases "CHR ''/'' \<in> set uri")
  case False
  then show ?thesis
    by (simp add: resource_target_def js_split_no_sep element_def)
next
  case True
  let ?r1 = "drop 1 (dropWhile (\<lambda>c. c \<noteq> CHR ''/'') uri)"
  have first: "js_split CHR ''/'' uri =
      takeWhile (\<lambda>c. c \<noteq> CHR ''/'') uri # js_split CHR ''/'' ?r1"
    by (rule js_split_cut [OF True])
  show ?thesis
  proof (cases "CHR ''/'' \<in> set ?r1")
    case False
    with True show ?thesis
      by (simp add: resource_target_def first js_split_no_sep element_def split_first_def)
  next
    case second: True
    let ?r2 = "drop 1 (dropWhile (\<lambda>c. c \<noteq> CHR ''/'') ?r1)"
    have parts: "js_split CHR ''/'' uri =
        takeWhile (\<lambda>c. c \<noteq> CHR ''/'') uri # takeWhile (\<lambda>c. c \<noteq> CHR ''/'') ?r1 #
          js_split CHR ''/'' ?r2"
      using js_split_cut [OF second] by (simp only: first)
    have repo: "element (js_split CHR ''/'' uri) 2 =
        Some (takeWhile (\<lambda>c. c \<noteq> CHR ''/'') ?r2)"
      by (simp only: parts numeral_2_eq_2 element_Cons_Suc element_js_split_0)
    have path: "js_join ''/'' (drop 3 (js_split CHR ''/'' uri)) =
        drop 1 (dropWhile (\<lambda>c. c \<noteq> CHR ''/'') ?r2)"
      using js_join_tail_split [of "CHR ''/''" ?r2] by (simp add: parts)
    from True second show ?thesis
      by (simp add: resource_target_def repo path split_first_def)
  qed
qed

text \<open>
  C7, as the code has it. For every string \<open>uri\<close> and every registry, \<^verbatim>\<open>readResource\<close>
  returns a content payload and the registry as it was: no branch throws and none looks
  at the registry. The text of the payload is
  \<^verbatim>\<open>Content of <path> from <repoName> repository\<close>, where the code cuts the uri at every
  \<^verbatim>\<open>/\<close>, drops the first two pieces unread, takes the third piece as the backend name and
  joins the pieces after it into the path. When the uri has fewer than two separators
  the backend name is undefined and the path is empty. For a uri that is the scheme prefix
  \<^verbatim>\<open>mcp://\<close> followed by a remainder, and so for every uri of the HTTP route, these parts
  are the remainder's text before its first \<^verbatim>\<open>/\<close> and the entire text after it. The
  router's \<^verbatim>\<open>resources/read\<close> is this operation.
\<close>

theorem readResource_parts:
  "readResource (VStr uri) m =
     (Inr (VObj [(''contents'', VArr
        [VObj [(''uri'', VStr uri), (''mimeType'', VStr ''text/plain''),
               (''text'', VStr (''Content of '' @ snd (resource_target uri) @
                                 '' from '' @ template (fst (resource_target uri)) @
                                 '' repository''))]])]), m) \<and>
   resource_target uri =
     (if CHR ''/'' \<in> set uri \<and> CHR ''/'' \<in> set (snd (split_first CHR ''/'' uri))
      then (Some (fst (split_first CHR ''/''
                    (snd (split_first CHR ''/'' (snd (split_first CHR ''/'' uri)))))),
            snd (split_first CHR ''/''
                    (snd (split_first CHR ''/'' (snd (split_first CHR ''/'' uri))))))
      else (None, [])) \<and>
   resource_target (scheme @ rest) =
     (Some (fst (split_first CHR ''/'' rest)), snd (split_first CHR ''/'' rest)) \<and>
   resource_target (scheme @ rest) =
     (Some (fst (uri_parts (scheme @ rest))), snd (uri_parts (scheme @ rest))) \<and>
   handleRequest (VStr ''resources/read'') (VObj [(''uri'', VStr uri)]) m =
     readResource (VStr uri) m"
proof -
  have "element (js_split CHR ''/'' (scheme @ rest)) 2 =
      Some (takeWhile (\<lambda>c. c \<noteq> CHR ''/'') rest)"
    by (simp only: js_split_scheme numeral_2_eq_2 element_Cons_Suc element_js_split_0)
  moreover have "js_join ''/'' (drop 3 (js_split CHR ''/'' (scheme @ rest))) =
      drop 1 (dropWhile (\<lambda>c. c \<noteq> CHR ''/'') rest)"
    using js_join_tail_split [of "CHR ''/''" rest]
    by (simp add: js_split_scheme)
  ultimately have prefixed: "resource_target (scheme @ rest) =
      (Some (fst (split_first CHR ''/'' rest)), snd (split_first CHR ''/'' rest))"
    by (simp add: resource_target_def split_first_def)
  have spec: "uri_parts (scheme @ rest) = split_first CHR ''/'' rest"
    by (simp add: uri_parts_def strip_scheme_def)
  have payload: "readResource (VStr uri) m =
     (Inr (VObj [(''contents'', VArr
        [VObj [(''uri'', VStr uri), (''mimeType'', VStr ''text/plain''),
               (''text'', VStr (''Content of '' @ snd (resource_target uri) @
                                 '' from '' @ template (fst (resource_target uri)) @
                                 '' repository''))]])]), m)"
    by (simp add: readResource_def resource_text_def split: prod.splits)
  have routed: "handleRequest (VStr ''resources/read'') (VObj [(''uri'', VStr uri)]) m =
     readResource (VStr uri) m"
    by (simp add: handleRequest_def)
  show ?thesis
    by (simp only: spec payload routed prefixed resource_target_pieces [of uri] simp_thms)
qed

theorem readResource_parts_witness:
  "CHR ''/'' \<in> set ''mcp://alpha/docs/guide.md'' \<and>
   CHR ''/'' \<in> set (snd (split_first CHR ''/'' ''mcp://alpha/docs/guide.md'')) \<and>
   readResource (VStr ''mcp://alpha/docs/guide.md'') [] =
     (Inr (VObj [(''contents'', VArr
        [VObj [(''uri'', VStr ''mcp://alpha/docs/guide.md''), (''mimeType'', VStr ''text/plain''),
               (''text'', VStr ''Content of docs/guide.md from alpha repository'')]])]), [])"
proof -
  have "resource_target ''mcp://alpha/docs/guide.md'' = (Some ''alpha'', ''docs/guide.md'')"
    using readResource_parts [of "''mcp://alpha/docs/guide.md''" "[]" "[]"]
    by (simp add: split_first_def)
  then show ?thesis
    using readResource_parts [of "''mcp://alpha/docs/guide.md''" "[]" "[]"]
    by (simp add: split_first_def)
qed

text \<open>
  C7 as stated fails on a uri without the scheme prefix. For \<^verbatim>\<open>alpha/docs/guide.md\<close> there is
  no prefix to strip, and splitting on the first \<^verbatim>\<open>/\<close> gives backend \<^verbatim>\<open>alpha\<close> and path
  \<^verbatim>\<open>docs/guide.md\<close>; the text the code returns names backend \<^verbatim>\<open>guide.md\<close> and an empty path.
\<close>

theorem readResource_unprefixed_counterexample:
  "readResource (VStr ''alpha/docs/guide.md'') [] =
     (Inr (VObj [(''contents'', VArr
        [VObj [(''uri'', VStr ''alpha/docs/guide.md''), (''mimeType'', VStr ''text/plain''),
               (''text'', VStr ''Content of  from guide.md repository'')]])]), []) \<and>
   uri_parts ''alpha/docs/guide.md'' = (''alpha'', ''docs/guide.md'')"
  by (simp add: readResource_def resource_text_def resource_target_def element_def
      uri_parts_def strip_scheme_def scheme_def split_first_def)

section \<open>The registry holds running entries only\<close>

lemma all_running_map_set:
  "all_running m \<Longrightarrow> status v = ''running'' \<Longrightarrow> all_running (map_set k v m)"
  by (induction m) (auto simp: all_running_def)

lemma all_running_map_delete: "all_running m \<Longrightarrow> all_running (map_delete k m)"
  by (induction m) (auto simp: all_running_def map_delete_def)

lemma keys_map_set:
  "map fst (map_set k v m) = (if k \<in> set (map fst m) then map fst m else map fst m @ [k])"
proof (induction m)
  case Nil
  then show ?case by simp
next
  case (Cons e m)
  obtain k' v' where e: "e = (k', v')" by (cases e)
  show ?case
  proof (cases "k' = k")
    case True
    with e show ?thesis by simp
  next
    case False
    with e Cons show ?thesis by simp
  qed
qed

lemma distinct_map_set: "distinct (map fst m) \<Longrightarrow> distinct (map fst (map_set k v m))"
  by (simp add: keys_map_set)

lemma distinct_map_delete: "distinct (map fst m) \<Longrightarrow> distinct (map fst (map_delete k m))"
  by (simp add: map_delete_def distinct_map_filter)

lemma reachable_all_running: "reachable m \<Longrightarrow> all_running m"
  by (induction rule: reachable.induct)
    (simp_all add: all_running_map_set all_running_map_delete, simp add: all_running_def)

lemma reachable_distinct: "reachable m \<Longrightarrow> distinct (map fst m)"
  by (induction rule: reachable.induct) (simp_all add: distinct_map_set distinct_map_delete)

text \<open>
  C10. In every state of the registry that \<^verbatim>\<open>set\<close> at line 48 and \<^verbatim>\<open>delete\<close> at line 45 can
  build, every entry has status \<^verbatim>\<open>running\<close> and never \<^verbatim>\<open>starting\<close> or \<^verbatim>\<open>exited\<close>, a name is
  in the registry exactly when it is a running backend, no name occurs twice, and every
  process that \<^verbatim>\<open>/health\<close> reports has status \<^verbatim>\<open>running\<close>.
\<close>

theorem registry_invariant:
  assumes "reachable m"
  shows "all_running m \<and>
         distinct (map fst m) \<and>
         (\<forall>k. map_has k m \<longleftrightarrow> k \<in> set (running m)) \<and>
         (\<forall>(name, data) \<in> set m. status data = ''running'' \<and>
             status data \<noteq> ''starting'' \<and> status data \<noteq> ''exited'') \<and>
         (\<forall>p \<in> set (health_processes m). js_get p ''status'' = Inr (VStr ''running''))"
proof -
  have inv: "all_running m" by (rule reachable_all_running [OF assms])
  then have each: "\<forall>(name, data) \<in> set m. status data = ''running''"
    by (auto simp: all_running_def list_all_iff)
  have "\<forall>k. map_has k m \<longleftrightarrow> k \<in> set (running m)"
    by (simp add: map_has_def all_running_running [OF inv])
  moreover have "\<forall>p \<in> set (health_processes m). js_get p ''status'' = Inr (VStr ''running'')"
    using each by (auto simp: health_processes_def)
  ultimately show ?thesis
    using inv each reachable_distinct [OF assms] by auto
qed

theorem registry_invariant_witness:
  "reachable [(''alpha'', \<lparr>process = 101, url = ''http://x'', status = ''running''\<rparr>)] \<and>
   all_running [(''alpha'', \<lparr>process = 101, url = ''http://x'', status = ''running''\<rparr>)] \<and>
   map (\<lambda>p. js_get p ''status'')
     (health_processes [(''alpha'', \<lparr>process = 101, url = ''http://x'', status = ''running''\<rparr>)])
     = [Inr (VStr ''running'')]"
proof -
  let ?m = "[(''alpha'', \<lparr>process = 101, url = ''http://x'', status = ''running''\<rparr>)]"
  have "reachable (map_set ''alpha'' \<lparr>process = 101, url = ''http://x'', status = ''running''\<rparr> [])"
    by (rule reachable.registered [OF reachable.initial])
  then have reach: "reachable ?m" by simp
  from registry_invariant [OF reach] have "all_running ?m"
    and "\<forall>p \<in> set (health_processes ?m). js_get p ''status'' = Inr (VStr ''running'')"
    by blast+
  with reach show ?thesis
    by (simp add: health_processes_def)
qed

section \<open>Start-up\<close>

lemma start_backend_throws:
  "start_backend spawn name u s =
     (Some ReferenceError,
      s\<lparr>console := console s @ [Info (''Starting MCP server for '' @ name @ ''...'')]\<rparr>)"
  by (simp add: start_backend_def)

lemma start_each_procs: "procs (start_each spawn cfg s) = procs s"
  by (induction cfg arbitrary: s) (auto simp: start_backend_throws)

lemma initializeMCPServers_reachable:
  "reachable (procs s) \<Longrightarrow> reachable (procs (initializeMCPServers spawn s))"
  by (simp add: initializeMCPServers_def start_each_procs)

text \<open>
  C2, evaluated. Whatever \<^verbatim>\<open>spawn\<close> would do, every iteration of the start-up loop throws a
  ReferenceError before \<^verbatim>\<open>spawn\<close> is called: the failure is logged for each backend and the
  loop goes on, but no backend is spawned and none is registered. Started on the empty
  registry with the three configured backends, the supervisor ends with the empty
  registry and three failures on the console.
\<close>

theorem initializeMCPServers_registers_nothing:
  "initializeMCPServers spawn \<lparr>procs = [], console = []\<rparr> =
     \<lparr>procs = [],
      console =
        [Info ''Initializing MCP servers...'',
         Info ''Starting MCP server for context7...'',
         Failure ''Failed to start MCP server for context7:'' ReferenceError,
         Info ''Starting MCP server for n8n-mcp...'',
         Failure ''Failed to start MCP server for n8n-mcp:'' ReferenceError,
         Info ''Starting MCP server for n8n-workflows...'',
         Failure ''Failed to start MCP server for n8n-workflows:'' ReferenceError]\<rparr> \<and>
   procs (initializeMCPServers spawn s) = procs s"
  by (simp add: initializeMCPServers_def REPOSITORIES_def start_backend_throws start_each_procs)

section \<open>Replies on the channel\<close>

lemma catch_block_throws: "catch_block error = Inl ReferenceError"
  by (simp add: catch_block_def)

lemma on_message_failure:
  "try_block parsed m = (Inl e, m') \<Longrightarrow>
     on_message parsed m = (\<lparr>sent = [], rejected = Some ReferenceError\<rparr>, m')"
  by (simp add: on_message_def catch_block_throws)

lemma on_message_success:
  "handleRequest method params m = (Inr response, m') \<Longrightarrow>
   js_get (VObj request) ''method'' = Inr method \<Longrightarrow>
   js_get (VObj request) ''params'' = Inr params \<Longrightarrow>
   js_get (VObj request) ''id'' = Inr ident \<Longrightarrow>
     on_message (Inr (VObj request)) m =
       (\<lparr>sent = [stringified [(''jsonrpc'', VStr ''2.0''), (''id'', ident), (''result'', response)]],
         rejected = None\<rparr>, m')"
  by (simp add: on_message_def try_block_def)

text \<open>
  C1, evaluated. For a message that is not JSON, and for a request without a method, the
  \<^verbatim>\<open>try\<close> block throws and the \<^verbatim>\<open>catch\<close> block throws in turn while it builds the error
  envelope: nothing is sent, and the listener's promise is rejected with a
  ReferenceError.
\<close>

theorem malformed_message_no_reply:
  "on_message (Inl SyntaxError) m = (\<lparr>sent = [], rejected = Some ReferenceError\<rparr>, m) \<and>
   on_message (Inr (VObj [(''jsonrpc'', VStr ''2.0''), (''id'', VNum ''1'')])) m =
     (\<lparr>sent = [], rejected = Some ReferenceError\<rparr>, m)"
  by (simp add: on_message_def try_block_def catch_block_throws handleRequest_def ToString_def)

text \<open>
  C3, evaluated. A request with id 7 and a method the router does not know gets no reply
  envelope at all: the \<^verbatim>\<open>catch\<close> block throws before \<^verbatim>\<open>ws.send\<close>.
\<close>

theorem unknown_method_no_reply:
  "on_message (Inr (VObj [(''jsonrpc'', VStr ''2.0''), (''id'', VNum ''7''),
                          (''method'', VStr ''ping'')])) m =
     (\<lparr>sent = [], rejected = Some ReferenceError\<rparr>, m)"
  by (simp add: on_message_def try_block_def catch_block_throws handleRequest_def ToString_def)

end
